theory Spec2Isabelle
  imports Main "HOL-Library.Word"
begin

section \<open>JavaScript strings\<close>

text \<open>
  A JavaScript string is a sequence of UTF-16 code units. The functions of
  \<^verbatim>\<open>annotationprocessing.js\<close> that matter here (\<^verbatim>\<open>split\<close>, \<^verbatim>\<open>match\<close>,
  \<^verbatim>\<open>includes\<close>, \<^verbatim>\<open>startsWith\<close>, \<^verbatim>\<open>replaceAll\<close>, \<^verbatim>\<open>trim\<close>, \<^verbatim>\<open>join\<close>)
  all work on code units, so a string is a list of 16-bit words. \<open>ascii\<close> writes a
  literal whose characters are all ASCII.
\<close>

type_synonym codeunit = "16 word"
type_synonym jsstring = "codeunit list"

definition ascii :: "string \<Rightarrow> jsstring" where
  "ascii s = map of_char s"

text \<open>
  The two reserved glyphs are outside the Basic Multilingual Plane, so each is a
  surrogate pair: U+1F30C (the word separator placed around links and footnotes) is
  \<open>D83C DF0C\<close>, and U+1F9B6 (the footnote placeholder) is \<open>D83E DDB6\<close>.
\<close>

definition galaxy :: jsstring where
  "galaxy = [0xD83C, 0xDF0C]"

definition foot :: jsstring where
  "foot = [0xD83E, 0xDDB6]"

text \<open>\<^verbatim>\<open>s.startsWith(pat)\<close> and \<^verbatim>\<open>s.includes(pat)\<close>.\<close>

fun startsWith :: "jsstring \<Rightarrow> jsstring \<Rightarrow> bool" where
  "startsWith s [] = True"
| "startsWith [] (c # cs) = False"
| "startsWith (x # xs) (c # cs) = (x = c \<and> startsWith xs cs)"

fun includes_str :: "jsstring \<Rightarrow> jsstring \<Rightarrow> bool" where
  "includes_str [] pat = (pat = [])"
| "includes_str (x # xs) pat = (startsWith (x # xs) pat \<or> includes_str xs pat)"

text \<open>
  \<^verbatim>\<open>s.replaceAll(pat, rep)\<close> with a string pattern: the occurrences are found from
  left to right and do not overlap; an empty pattern matches before every code unit and
  at the end.
\<close>

function replaceAll :: "jsstring \<Rightarrow> jsstring \<Rightarrow> jsstring \<Rightarrow> jsstring" where
  "replaceAll [] pat rep = (if pat = [] then rep else [])"
| "replaceAll (x # xs) pat rep =
     (if pat = [] then rep @ x # replaceAll xs pat rep
      else if startsWith (x # xs) pat
        then rep @ replaceAll (drop (length pat) (x # xs)) pat rep
      else x # replaceAll xs pat rep)"
  by pat_completeness auto
termination
  by (relation "measure (\<lambda>(s, pat, rep). length s)") auto

text \<open>
  The white space of \<^verbatim>\<open>\s\<close> in a regular expression and of \<^verbatim>\<open>trim\<close>: the
  WhiteSpace and LineTerminator code points of ECMAScript.
\<close>

definition isWhiteSpace :: "codeunit \<Rightarrow> bool" where
  "isWhiteSpace c \<longleftrightarrow>
     c = 0x09 \<or> c = 0x0A \<or> c = 0x0B \<or> c = 0x0C \<or> c = 0x0D \<or> c = 0x20 \<or>
     c = 0xA0 \<or> c = 0x1680 \<or> (0x2000 \<le> c \<and> c \<le> 0x200A) \<or>
     c = 0x2028 \<or> c = 0x2029 \<or> c = 0x202F \<or> c = 0x205F \<or> c = 0x3000 \<or>
     c = 0xFEFF"

definition trim :: "jsstring \<Rightarrow> jsstring" where
  "trim s = rev (dropWhile isWhiteSpace (rev (dropWhile isWhiteSpace s)))"

text \<open>\<^verbatim>\<open>xs.join(sep)\<close> on an array of strings, and \<^verbatim>\<open>xs.slice(s, e)\<close> for
  indices that are natural numbers.\<close>

fun join :: "jsstring \<Rightarrow> jsstring list \<Rightarrow> jsstring" where
  "join sep [] = []"
| "join sep [x] = x"
| "join sep (x # y # ys) = x @ sep @ join sep (y # ys)"

definition blankLine :: jsstring where
  "blankLine = [0x0A, 0x0A]"

definition slice :: "'a list \<Rightarrow> nat \<Rightarrow> nat \<Rightarrow> 'a list" where
  "slice xs s e = take (e - s) (drop s xs)"

section \<open>The separator expression\<close>

text \<open>
  \<^verbatim>\<open>const SeparatorRegex = /([...]+)/g\<close> with the class: the separator glyph, \<^verbatim>\<open>\s\<close>,
  em dash, en dash, hyphen. The expression has no \<^verbatim>\<open>u\<close> flag, so its class is a
  set of code units: the two surrogates of the separator glyph are members one by one.
\<close>

definition isSeparatorChar :: "codeunit \<Rightarrow> bool" where
  "isSeparatorChar c \<longleftrightarrow>
     c = 0xD83C \<or> c = 0xDF0C \<or> isWhiteSpace c \<or> c = 0x2014 \<or> c = 0x2013 \<or> c = 0x2D"

text \<open>
  \<^verbatim>\<open>p.match(SeparatorRegex)?.[0]\<close>: with the \<^verbatim>\<open>g\<close> flag \<^verbatim>\<open>match\<close> returns all
  matches, or null when there is none; element 0 is the first maximal run of separator
  code units. \<open>None\<close> is \<^verbatim>\<open>undefined\<close>.
\<close>

definition firstSeparatorMatch :: "jsstring \<Rightarrow> jsstring option" where
  "firstSeparatorMatch p =
     (case dropWhile (\<lambda>c. \<not> isSeparatorChar c) p of
        [] \<Rightarrow> None
      | c # r \<Rightarrow> Some (takeWhile isSeparatorChar (c # r)))"

text \<open>
  \<^verbatim>\<open>part.split(SeparatorRegex)\<close>: the text before each match, then the match (the
  capturing group), and at the end the text after the last match. The expression never
  matches the empty string, so the empty string splits into one empty token. (The
  array limit of \<open>2^32 - 1\<close> elements is beyond the length of any string an engine holds
  and is left out.)
\<close>

function split_SeparatorRegex :: "jsstring \<Rightarrow> jsstring list" where
  "split_SeparatorRegex s =
     (case dropWhile (\<lambda>c. \<not> isSeparatorChar c) s of
        [] \<Rightarrow> [s]
      | c # r \<Rightarrow>
          takeWhile (\<lambda>c. \<not> isSeparatorChar c) s
          # takeWhile isSeparatorChar (c # r)
          # split_SeparatorRegex (dropWhile isSeparatorChar (c # r)))"
  by pat_completeness auto
termination
proof (relation "measure length")
  show "wf (measure length)" by simp
next
  fix s :: jsstring and c r
  assume d: "dropWhile (\<lambda>c. \<not> isSeparatorChar c) s = c # r"
  have "isSeparatorChar c"
    using d hd_dropWhile[of "\<lambda>c. \<not> isSeparatorChar c" s] by auto
  then have "length (dropWhile isSeparatorChar (c # r)) \<le> length r"
    by (simp add: length_dropWhile_le)
  also have "length r < length (c # r)" by simp
  also have "length (c # r) \<le> length s"
    using d length_dropWhile_le[of "\<lambda>c. \<not> isSeparatorChar c" s] by simp
  finally show "(dropWhile isSeparatorChar (c # r), s) \<in> measure length" by simp
qed

declare split_SeparatorRegex.simps [simp del]

section \<open>Offset resolution\<close>

text \<open>
  The word offset handed to \<^verbatim>\<open>wordOffsetToIndex\<close> is a JavaScript number: an integer
  (word offsets are whole numbers), \<^verbatim>\<open>Number.POSITIVE_INFINITY\<close>, or \<^verbatim>\<open>NaN\<close>
  (what arithmetic on an absent offset gives; comparing with \<^verbatim>\<open>undefined\<close> behaves
  the same). \<open>offsetLess n w\<close> is \<^verbatim>\<open>offset < wordOffset\<close> for the counter \<open>n\<close>.
\<close>

datatype jsnum = Num int | PosInfinity | NaN

fun offsetLess :: "nat \<Rightarrow> jsnum \<Rightarrow> bool" where
  "offsetLess n (Num k) = (int n < k)"
| "offsetLess n PosInfinity = True"
| "offsetLess n NaN = False"

text \<open>The three variables of the loop of \<^verbatim>\<open>wordOffsetToIndex\<close>.\<close>

record loop_state =
  offset :: nat
  index :: nat
  inLink :: bool

definition initial :: loop_state where
  "initial = \<lparr>offset = 0, index = 0, inLink = False\<rparr>"

text \<open>
  One pass through the body of the loop, with \<open>p\<close> the token at \<open>index\<close>: the counter
  advances when the loop is not inside a link and \<open>p\<close> is not a separator token; a
  token containing \<^verbatim>\<open>](\<close> opens the link state, and a token containing \<^verbatim>\<open>)\<close>
  closes it.
\<close>

definition body :: "loop_state \<Rightarrow> jsstring \<Rightarrow> loop_state" where
  "body st p =
     (let offset' = (if \<not> inLink st \<and> firstSeparatorMatch p \<noteq> Some p
                     then offset st + 1 else offset st);
          inLink1 = (if includes_str p (ascii '']('') then True else inLink st);
          inLink2 = (if inLink1 \<and> includes_str p (ascii '')'') then False else inLink1)
      in \<lparr>offset = offset', index = index st + 1, inLink = inLink2\<rparr>)"

text \<open>
  The loop \<^verbatim>\<open>while (offset < wordOffset && index < wordsAndSeparators.length)\<close>. The
  list argument is the part of \<^verbatim>\<open>wordsAndSeparators\<close> from \<open>index\<close> on, so the
  second test of the loop is the test for the empty list.
\<close>

fun loop :: "jsnum \<Rightarrow> jsstring list \<Rightarrow> loop_state \<Rightarrow> loop_state" where
  "loop wordOffset [] st = st"
| "loop wordOffset (p # rest) st =
     (if offsetLess (offset st) wordOffset then loop wordOffset rest (body st p) else st)"

definition wordOffsetToIndex :: "jsstring list \<Rightarrow> jsnum \<Rightarrow> nat" where
  "wordOffsetToIndex wordsAndSeparators wordOffset =
     index (loop wordOffset wordsAndSeparators initial)"

section \<open>Annotations, fragments and highlight records\<close>

text \<open>
  The records the assembler reads and writes. A field that may be missing is an
  option, \<open>None\<close> standing for \<^verbatim>\<open>undefined\<close>. A timestamp is kept as the value
  the \<^verbatim>\<open>Date\<close> is constructed from.
\<close>

record highlight =
  h_uri :: jsstring
  startOffset :: "int option"
  endOffset :: "int option"

record note_rec =
  note_content :: "jsstring option"

record tag =
  tag_name :: jsstring

record annotation =
  annotationId :: "jsstring option"
  uri :: "jsstring option"
  highlights :: "highlight list option"
  a_note :: "note_rec option"
  tags :: "tag list option"
  created :: "jsstring option"
  lastUpdated :: "jsstring option"

record block =
  markup :: jsstring

record fragment =
  content :: "block list"
  authorName :: "jsstring option"
  publication :: "jsstring option"
  headline :: "jsstring option"

record source =
  url :: jsstring
  title :: "jsstring option"
  author :: "jsstring option"
  source_type :: "jsstring option"

record assembled =
  out_id :: jsstring
  out_created :: "jsstring option"
  out_updated :: "jsstring option"
  out_source :: "source option"
  fullMd :: jsstring
  highlightMd :: jsstring
  noteMd :: "jsstring option"
  out_tags :: "jsstring list"
  sourceLink :: "jsstring option"

text \<open>What the body of the \<^verbatim>\<open>try\<close> block can throw.\<close>

datatype error =
    MissingAnnotationId
  | MissingContents jsstring
  | TypeError

text \<open>A string value is truthy when it is present and not empty; \<open>a || b\<close> on such values.\<close>

definition truthy :: "jsstring option \<Rightarrow> bool" where
  "truthy v = (case v of None \<Rightarrow> False | Some [] \<Rightarrow> False | Some (c # cs) \<Rightarrow> True)"

definition js_or :: "jsstring option \<Rightarrow> jsstring option \<Rightarrow> jsstring option" where
  "js_or a b = (if truthy a then a else b)"

section \<open>Source resolution\<close>

text \<open>
  \<^verbatim>\<open>uriToUrl\<close> concatenates; an \<^verbatim>\<open>undefined\<close> argument is converted to the string
  \<^verbatim>\<open>undefined\<close>.
\<close>

definition uriToUrl :: "jsstring option \<Rightarrow> jsstring" where
  "uriToUrl u =
     ascii ''https://www.churchofjesuschrist.org/study''
     @ (case u of None \<Rightarrow> ascii ''undefined'' | Some s \<Rightarrow> s)"

definition church :: jsstring where
  "church = ascii ''The Church of Jesus Christ of Latter-day Saints''"

definition knownSources :: "source list" where
  "knownSources =
     [\<lparr>url = ascii ''https://www.churchofjesuschrist.org/study/scriptures/bofm'',
       title = Some (ascii ''Book of Mormon''), author = Some church,
       source_type = Some (ascii ''books'')\<rparr>,
      \<lparr>url = ascii ''https://www.churchofjesuschrist.org/study/scriptures/nt'',
       title = Some (ascii ''New Testament''), author = Some church,
       source_type = Some (ascii ''books'')\<rparr>,
      \<lparr>url = ascii ''https://www.churchofjesuschrist.org/study/scriptures/ot'',
       title = Some (ascii ''Old Testament''), author = Some church,
       source_type = Some (ascii ''books'')\<rparr>,
      \<lparr>url = ascii ''https://www.churchofjesuschrist.org/study/scriptures/dc-testament'',
       title = Some (ascii ''Doctrine and Covenants''), author = Some church,
       source_type = Some (ascii ''books'')\<rparr>,
      \<lparr>url = ascii ''https://www.churchofjesuschrist.org/study/scriptures/pgp'',
       title = Some (ascii ''Pearl of Great Price''), author = Some church,
       source_type = Some (ascii ''books'')\<rparr>]"

text \<open>
  \<^verbatim>\<open>getSourceInfo(annotation, contentObj)\<close>. The address it resolves is that of the
  annotation's own \<^verbatim>\<open>uri\<close> field.
\<close>

definition getSourceInfo :: "annotation \<Rightarrow> fragment \<Rightarrow> source" where
  "getSourceInfo a contentObj =
     (let u = uriToUrl (uri a) in
      case find (\<lambda>s. startsWith u (url s)) knownSources of
        Some s \<Rightarrow> s
      | None \<Rightarrow>
          \<lparr>url = u, title = headline contentObj,
           author = js_or (authorName contentObj) (publication contentObj),
           source_type = None\<rparr>)"

section \<open>Placeholders\<close>

definition withoutPlaceholders :: "jsstring \<Rightarrow> jsstring" where
  "withoutPlaceholders md = replaceAll (replaceAll md foot []) galaxy []"

section \<open>Assembling the highlights\<close>

definition getContentUrisForAnnotation :: "annotation \<Rightarrow> jsstring list" where
  "getContentUrisForAnnotation a =
     (case highlights a of None \<Rightarrow> [] | Some hs \<Rightarrow> map h_uri hs)"

text \<open>
  \<^verbatim>\<open>uris.map(uri => ...)\<close>: the fragment of every address, in order; the first address
  the mapping lacks throws.
\<close>

fun contentObjsOf :: "(jsstring \<rightharpoonup> fragment) \<Rightarrow> jsstring list \<Rightarrow> error + fragment list" where
  "contentObjsOf contents [] = Inr []"
| "contentObjsOf contents (u # us) =
     (case contents u of
        None \<Rightarrow> Inl (MissingContents u)
      | Some c \<Rightarrow>
          (case contentObjsOf contents us of
             Inl e \<Rightarrow> Inl e
           | Inr cs \<Rightarrow> Inr (c # cs)))"

text \<open>
  The two offsets of a span as the callback computes them:
  \<^verbatim>\<open>Math.max(h.startOffset - 1, 0)\<close>, and \<^verbatim>\<open>h.endOffset\<close> with \<open>-1\<close> read as infinity.
\<close>

definition startOffsetOf :: "highlight \<Rightarrow> jsnum" where
  "startOffsetOf h = (case startOffset h of None \<Rightarrow> NaN | Some k \<Rightarrow> Num (max (k - 1) 0))"

definition endOffsetOf :: "highlight \<Rightarrow> jsnum" where
  "endOffsetOf h =
     (case endOffset h of
        None \<Rightarrow> NaN
      | Some k \<Rightarrow> if k = - 1 then PosInfinity else Num k)"

text \<open>The callback of \<^verbatim>\<open>mdParts.map((part, i) => ...)\<close> for a span \<open>h\<close> that exists.\<close>

definition highlightPart :: "jsstring \<Rightarrow> highlight \<Rightarrow> jsstring" where
  "highlightPart part h =
     (let parts = split_SeparatorRegex part;
          startIndex = wordOffsetToIndex parts (startOffsetOf h);
          endIndex = wordOffsetToIndex parts (endOffsetOf h)
      in concat (slice parts startIndex endIndex))"

text \<open>
  The map itself: converted block \<open>i\<close> meets \<^verbatim>\<open>highlights[i]\<close>. Where the spans run
  out, \<^verbatim>\<open>h\<close> is \<^verbatim>\<open>undefined\<close> and reading \<^verbatim>\<open>h.startOffset\<close> throws a TypeError.
  Spans beyond the last block are not looked at.
\<close>

fun highlightParts :: "jsstring list \<Rightarrow> highlight list \<Rightarrow> error + jsstring list" where
  "highlightParts [] hs = Inr []"
| "highlightParts (part # parts) [] = Inl TypeError"
| "highlightParts (part # parts) (h # hs) =
     (case highlightParts parts hs of
        Inl e \<Rightarrow> Inl e
      | Inr xs \<Rightarrow> Inr (highlightPart part h # xs))"

text \<open>
  The body of the \<^verbatim>\<open>try\<close> block for one annotation. The two conversions by the
  markup engine, \<^verbatim>\<open>htmlToMarkdownWithPlaceholders\<close> and \<^verbatim>\<open>noteToMarkdown\<close>, are
  parameters: functions from strings to strings. Writing to the console is not modelled.
\<close>

definition assembleBody ::
  "(jsstring \<Rightarrow> jsstring) \<Rightarrow> (jsstring \<Rightarrow> jsstring) \<Rightarrow> (jsstring \<rightharpoonup> fragment)
     \<Rightarrow> annotation \<Rightarrow> error + assembled" where
  "assembleBody htmlToMarkdownWithPlaceholders noteToMarkdown contents a =
     (if \<not> truthy (annotationId a) then Inl MissingAnnotationId
      else
        (let hs = (case highlights a of None \<Rightarrow> [] | Some l \<Rightarrow> l);
             uris = getContentUrisForAnnotation a
         in (case contentObjsOf contents uris of
               Inl e \<Rightarrow> Inl e
             | Inr contentObjs \<Rightarrow>
                 (let src = (case contentObjs of
                               [] \<Rightarrow> None
                             | c # cs \<Rightarrow> Some (getSourceInfo a c));
                      link = (case uris of
                                [] \<Rightarrow> None
                              | u # us \<Rightarrow> (if u = [] then None else Some (uriToUrl (Some u))));
                      mdParts = map htmlToMarkdownWithPlaceholders
                                  (map markup (concat (map content contentObjs)));
                      full = join blankLine (map withoutPlaceholders mdParts)
                  in (case highlightParts mdParts hs of
                        Inl e \<Rightarrow> Inl e
                      | Inr hparts \<Rightarrow>
                          (let hmd = join blankLine (map trim (map withoutPlaceholders hparts));
                               nmd = (case a_note a of
                                        None \<Rightarrow> None
                                      | Some n \<Rightarrow>
                                          (if truthy (note_content n)
                                           then map_option noteToMarkdown (note_content n)
                                           else None));
                               tgs = (case tags a of None \<Rightarrow> [] | Some ts \<Rightarrow> map tag_name ts);
                               i = (case annotationId a of None \<Rightarrow> [] | Some s \<Rightarrow> s)
                           in Inr \<lparr>out_id = i, out_created = created a,
                                   out_updated = lastUpdated a, out_source = src,
                                   fullMd = full, highlightMd = hmd, noteMd = nmd,
                                   out_tags = tgs, sourceLink = link\<rparr>))))))"

text \<open>
  An element of the array of annotations is an annotation object, or \<^verbatim>\<open>null\<close> or
  \<^verbatim>\<open>undefined\<close> (\<open>None\<close>). The \<^verbatim>\<open>try\<close> block starts by reading
  \<^verbatim>\<open>a.annotationId\<close>, which throws a TypeError when \<^verbatim>\<open>a\<close> is no object.
\<close>

definition assembleTry ::
  "(jsstring \<Rightarrow> jsstring) \<Rightarrow> (jsstring \<Rightarrow> jsstring) \<Rightarrow> (jsstring \<rightharpoonup> fragment)
     \<Rightarrow> annotation option \<Rightarrow> error + assembled" where
  "assembleTry htmlToMarkdownWithPlaceholders noteToMarkdown contents el =
     (case el of
        None \<Rightarrow> Inl TypeError
      | Some a \<Rightarrow> assembleBody htmlToMarkdownWithPlaceholders noteToMarkdown contents a)"

text \<open>
  The \<^verbatim>\<open>catch\<close> block: it evaluates \<^verbatim>\<open>a.uri ?? a.highlights?.[0]?.uri ?? 'unknown'\<close>
  for its message and returns \<^verbatim>\<open>undefined\<close>. Reading \<^verbatim>\<open>a.uri\<close> throws a TypeError
  when \<^verbatim>\<open>a\<close> is no object, and nothing catches what the handler throws.
\<close>

definition catchHandler :: "annotation option \<Rightarrow> error + assembled option" where
  "catchHandler el = (case el of None \<Rightarrow> Inl TypeError | Some a \<Rightarrow> Inr None)"

text \<open>
  The callback of \<^verbatim>\<open>annotations.map\<close>: the record of the \<^verbatim>\<open>try\<close> block, or what
  the handler gives. \<open>Inl\<close> is an exception that leaves the callback.
\<close>

definition assembleOne ::
  "(jsstring \<Rightarrow> jsstring) \<Rightarrow> (jsstring \<Rightarrow> jsstring) \<Rightarrow> (jsstring \<rightharpoonup> fragment)
     \<Rightarrow> annotation option \<Rightarrow> error + assembled option" where
  "assembleOne htmlToMarkdownWithPlaceholders noteToMarkdown contents el =
     (case assembleTry htmlToMarkdownWithPlaceholders noteToMarkdown contents el of
        Inl err \<Rightarrow> catchHandler el
      | Inr r \<Rightarrow> Inr (Some r))"

text \<open>
  \<^verbatim>\<open>annotations.map(callback)\<close>: the callback runs on the elements in order, and an
  exception that leaves it leaves the map.
\<close>

fun mapOrThrow :: "('a \<Rightarrow> error + 'b) \<Rightarrow> 'a list \<Rightarrow> error + 'b list" where
  "mapOrThrow f [] = Inr []"
| "mapOrThrow f (x # xs) =
     (case f x of
        Inl e \<Rightarrow> Inl e
      | Inr y \<Rightarrow>
          (case mapOrThrow f xs of
             Inl e \<Rightarrow> Inl e
           | Inr ys \<Rightarrow> Inr (y # ys)))"

text \<open>The filter \<^verbatim>\<open>h => !!h?.highlightMd\<close>.\<close>

definition kept :: "assembled option \<Rightarrow> bool" where
  "kept h = (case h of None \<Rightarrow> False | Some r \<Rightarrow> highlightMd r \<noteq> [])"

text \<open>
  \<^verbatim>\<open>assembleHighlights(annotations, contents)\<close>: the map, then the filter. The result
  is the list of records returned, or the exception that leaves the call.
\<close>

definition assembleHighlights ::
  "(jsstring \<Rightarrow> jsstring) \<Rightarrow> (jsstring \<Rightarrow> jsstring) \<Rightarrow> annotation option list
     \<Rightarrow> (jsstring \<rightharpoonup> fragment) \<Rightarrow> error + assembled list" where
  "assembleHighlights htmlToMarkdownWithPlaceholders noteToMarkdown annotations contents =
     (case mapOrThrow (assembleOne htmlToMarkdownWithPlaceholders noteToMarkdown contents)
             annotations of
        Inl e \<Rightarrow> Inl e
      | Inr hs \<Rightarrow> Inr [r. Some r \<leftarrow> filter kept hs])"

section \<open>Word tokens\<close>


section \<open>Sample inputs\<close>

definition ex_span :: "int option \<Rightarrow> int option \<Rightarrow> highlight" where
  "ex_span s e = \<lparr>h_uri = ascii ''/x'', startOffset = s, endOffset = e\<rparr>"

definition ex_words :: jsstring where
  "ex_words = ascii ''a b c''"

definition ex_footnote_block :: jsstring where
  "ex_footnote_block = ascii '' The quick'' @ galaxy @ foot @ galaxy @ ascii '' fox ''"

definition ex_bare_link :: jsstring where
  "ex_bare_link = ascii ''[a](x-y)''"

definition ex_paren_link :: jsstring where
  "ex_paren_link = ascii ''[(a)](x-y)''"

definition ex_leading_space :: jsstring where
  "ex_leading_space = ascii '' a b c''"

definition ex_leading_link :: jsstring where
  "ex_leading_link = galaxy @ ascii ''[a](u)'' @ galaxy @ ascii '' b''"



definition ex_annotation ::
    "jsstring option \<Rightarrow> jsstring option \<Rightarrow> highlight list option \<Rightarrow> annotation" where
  "ex_annotation i u hs =
     \<lparr>annotationId = i, uri = u, highlights = hs, a_note = None, tags = None,
      created = None, lastUpdated = None\<rparr>"

definition ex_fragment :: "jsstring list \<Rightarrow> fragment" where
  "ex_fragment ms =
     \<lparr>content = map (\<lambda>m. \<lparr>markup = m\<rparr>) ms,
      authorName = Some (ascii ''Russell M. Nelson''),
      publication = Some (ascii ''General Conference''),
      headline = Some (ascii ''Opening Message'')\<rparr>"

definition ex_talk :: jsstring where
  "ex_talk = ascii ''/general-conference/2020/04/11nelson''"

definition ex_paragraph :: jsstring where
  "ex_paragraph = ascii ''/general-conference/2020/04/11nelson.p5''"

definition ex_contents :: "jsstring \<rightharpoonup> fragment" where
  "ex_contents = map_of [(ex_paragraph, ex_fragment [ascii ''Hear Him'']),
                         (ex_talk, ex_fragment [ascii ''one'', ascii ''two''])]"

definition ex_valid :: annotation where
  "ex_valid = ex_annotation (Some (ascii ''id1'')) (Some ex_talk)
     (Some [\<lparr>h_uri = ex_paragraph, startOffset = Some 1, endOffset = Some (- 1)\<rparr>])"

definition ex_valid_record :: assembled where
  "ex_valid_record =
     \<lparr>out_id = ascii ''id1'', out_created = None, out_updated = None,
      out_source = Some
        \<lparr>url = ascii ''https://www.churchofjesuschrist.org/study/general-conference/2020/04/11nelson'',
         title = Some (ascii ''Opening Message''),
         author = Some (ascii ''Russell M. Nelson''),
         source_type = None\<rparr>,
      fullMd = ascii ''Hear Him'', highlightMd = ascii ''Hear Him'', noteMd = None,
      out_tags = [],
      sourceLink = Some
        (ascii ''https://www.churchofjesuschrist.org/study/general-conference/2020/04/11nelson.p5'')\<rparr>"

definition ex_chapter :: jsstring where
  "ex_chapter = ascii ''/scriptures/bofm/1-ne/3''"

definition ex_verse :: jsstring where
  "ex_verse = ascii ''/scriptures/bofm/1-ne/3.p7''"

definition ex_scripture_contents :: "jsstring \<rightharpoonup> fragment" where
  "ex_scripture_contents = map_of [(ex_verse, ex_fragment [ascii ''I will go and do''])]"

definition ex_bofm :: annotation where
  "ex_bofm = ex_annotation (Some (ascii ''id6'')) (Some ex_chapter)
     (Some [\<lparr>h_uri = ex_verse, startOffset = Some 1, endOffset = Some 2\<rparr>])"

definition ex_bofm_record :: assembled where
  "ex_bofm_record =
     \<lparr>out_id = ascii ''id6'', out_created = None, out_updated = None,
      out_source = Some
        \<lparr>url = ascii ''https://www.churchofjesuschrist.org/study/scriptures/bofm'',
         title = Some (ascii ''Book of Mormon''), author = Some church,
         source_type = Some (ascii ''books'')\<rparr>,
      fullMd = ascii ''I will go and do'', highlightMd = ascii ''I will'', noteMd = None,
      out_tags = [],
      sourceLink = Some
        (ascii ''https://www.churchofjesuschrist.org/study/scriptures/bofm/1-ne/3.p7'')\<rparr>"

definition ex_no_id :: annotation where
  "ex_no_id = ex_annotation None (Some ex_talk)
     (Some [\<lparr>h_uri = ex_paragraph, startOffset = Some 1, endOffset = Some (- 1)\<rparr>])"

definition ex_moved :: annotation where
  "ex_moved = ex_annotation (Some (ascii ''id2'')) (Some ex_talk)
     (Some [\<lparr>h_uri = ascii ''/moved'', startOffset = Some 1, endOffset = Some (- 1)\<rparr>])"

definition ex_no_spans :: annotation where
  "ex_no_spans = ex_annotation (Some (ascii ''id3'')) (Some ex_talk) None"


definition ex_two_blocks :: annotation where
  "ex_two_blocks = ex_annotation (Some (ascii ''id4'')) (Some ex_talk)
     (Some [\<lparr>h_uri = ex_talk, startOffset = Some 1, endOffset = Some (- 1)\<rparr>])"

section \<open>Tokens and the token walk\<close>

lemma split_nonempty: "split_SeparatorRegex s \<noteq> []"
  by (subst split_SeparatorRegex.simps) (simp split: list.splits)

lemma loop_index: "index (loop PosInfinity ws st) = index st + length ws"
  by (induction ws arbitrary: st) (simp_all add: body_def Let_def)

lemma loop_index_le: "index (loop wo ws st) \<le> index st + length ws"
proof (induction ws arbitrary: st)
  case Nil
  then show ?case by simp
next
  case (Cons p ws)
  have "index (loop wo ws (body st p)) \<le> index (body st p) + length ws"
    by (rule Cons.IH)
  then show ?case by (simp add: body_def Let_def)
qed

lemma loop_offset_mono: "offset st \<le> offset (loop wo ws st)"
proof (induction ws arbitrary: st)
  case Nil
  then show ?case by simp
next
  case (Cons p ws)
  have "offset st \<le> offset (body st p)" by (simp add: body_def Let_def)
  also have "\<dots> \<le> offset (loop wo ws (body st p))" by (rule Cons.IH)
  finally show ?case by simp
qed

lemma loop_stopped: "\<not> offsetLess (offset st) wo \<Longrightarrow> loop wo ws st = st"
  by (cases ws) simp_all


lemma loop_zero: "loop (Num 0) ws st = st"
  by (rule loop_stopped) simp

lemma loop_NaN: "loop NaN ws st = st"
  by (rule loop_stopped) simp

lemma wordOffsetToIndex_PosInfinity: "wordOffsetToIndex ws PosInfinity = length ws"
  by (simp add: wordOffsetToIndex_def loop_index initial_def)

lemma wordOffsetToIndex_le: "wordOffsetToIndex ws wo \<le> length ws"
  using loop_index_le[of wo ws initial] by (simp add: wordOffsetToIndex_def initial_def)

lemma loop_unbounded:
  "int (offset (loop PosInfinity ws st)) < k \<Longrightarrow> loop (Num k) ws st = loop PosInfinity ws st"
proof (induction ws arbitrary: st)
  case Nil
  then show ?case by simp
next
  case (Cons p ws)
  have "offset st \<le> offset (loop PosInfinity (p # ws) st)" by (rule loop_offset_mono)
  with Cons.prems have lt: "int (offset st) < k" by linarith
  from Cons.prems have "int (offset (loop PosInfinity ws (body st p))) < k" by simp
  then have "loop (Num k) ws (body st p) = loop PosInfinity ws (body st p)" by (rule Cons.IH)
  with lt show ?case by simp
qed

lemma split_concat: "concat (split_SeparatorRegex s) = s"
proof (induction s rule: split_SeparatorRegex.induct)
  case (1 s)
  show ?case
  proof (cases "dropWhile (\<lambda>c. \<not> isSeparatorChar c) s")
    case Nil
    then show ?thesis
      by (subst split_SeparatorRegex.simps) (simp only: list.case concat.simps append_Nil2)
  next
    case (Cons c r)
    have "concat (split_SeparatorRegex s) =
        takeWhile (\<lambda>c. \<not> isSeparatorChar c) s @ takeWhile isSeparatorChar (c # r)
        @ concat (split_SeparatorRegex (dropWhile isSeparatorChar (c # r)))"
      using Cons by (subst split_SeparatorRegex.simps) simp
    also have "\<dots> = takeWhile (\<lambda>c. \<not> isSeparatorChar c) s @ takeWhile isSeparatorChar (c # r)
        @ dropWhile isSeparatorChar (c # r)"
      using 1[OF Cons] by simp
    also have "\<dots> = takeWhile (\<lambda>c. \<not> isSeparatorChar c) s @ (c # r)"
      by (simp only: takeWhile_dropWhile_id)
    also have "\<dots> = s"
      using Cons takeWhile_dropWhile_id[of "\<lambda>c. \<not> isSeparatorChar c" s] by simp
    finally show ?thesis .
  qed
qed

section \<open>Slices, placeholders and the resolved indices\<close>

lemma withoutPlaceholders_Nil: "withoutPlaceholders [] = []"
  by (simp add: withoutPlaceholders_def foot_def galaxy_def)

lemma trim_Nil: "trim [] = []"
  by (simp add: trim_def)

lemma slice_whole: "slice xs 0 (length xs) = xs"
  by (simp add: slice_def)

lemma slice_empty: "e \<le> s \<Longrightarrow> slice xs s e = []"
  by (simp add: slice_def)

lemma slice_from_end: "length xs \<le> s \<Longrightarrow> slice xs s e = []"
  by (simp add: slice_def)

lemma wordOffsetToIndex_zero: "wordOffsetToIndex ws (Num 0) = 0"
  by (simp add: wordOffsetToIndex_def loop_zero initial_def)

lemma wordOffsetToIndex_NaN: "wordOffsetToIndex ws NaN = 0"
  by (simp add: wordOffsetToIndex_def loop_NaN initial_def)

section \<open>The walk through a link\<close>










section \<open>The batch\<close>

lemma assembleOne_Some:
  "assembleOne conv nconv contents (Some a) =
   Inr (case assembleBody conv nconv contents a of Inl e \<Rightarrow> None | Inr r \<Rightarrow> Some r)"
  by (simp add: assembleOne_def assembleTry_def catchHandler_def split: sum.splits)

lemma assembleOne_None: "assembleOne conv nconv contents None = Inl TypeError"
  by (simp add: assembleOne_def assembleTry_def catchHandler_def)

lemma assembleHighlights_Nil: "assembleHighlights conv nconv [] contents = Inr []"
  by (simp add: assembleHighlights_def)

lemma assembleHighlights_Cons_None:
  "assembleHighlights conv nconv (None # els) contents = Inl TypeError"
  by (simp add: assembleHighlights_def assembleOne_None)

lemma assembleHighlights_Cons_Some:
  "assembleHighlights conv nconv (Some a # els) contents =
   (case assembleHighlights conv nconv els contents of
      Inl e \<Rightarrow> Inl e
    | Inr rs \<Rightarrow>
        Inr ((case assembleBody conv nconv contents a of
                Inl e \<Rightarrow> []
              | Inr r \<Rightarrow> if highlightMd r = [] then [] else [r]) @ rs))"
  by (simp add: assembleHighlights_def assembleOne_Some kept_def split: sum.splits)

lemma assembleHighlights_skip:
  assumes "(case assembleBody conv nconv contents a of
              Inl e \<Rightarrow> []
            | Inr r \<Rightarrow> if highlightMd r = [] then [] else [r]) = []"
  shows "assembleHighlights conv nconv (xs @ Some a # ys) contents =
         assembleHighlights conv nconv (xs @ ys) contents"
proof (induction xs)
  case Nil
  show ?case
    by (simp add: assembleHighlights_Cons_Some assms split: sum.splits)
next
  case (Cons x xs)
  show ?case
  proof (cases x)
    case None
    then show ?thesis by (simp add: assembleHighlights_Cons_None)
  next
    case (Some b)
    then show ?thesis using Cons.IH by (simp add: assembleHighlights_Cons_Some)
  qed
qed

lemma assembleHighlights_objects:
  "assembleHighlights conv nconv (map Some as) contents =
   Inr (concat (map (\<lambda>a. case assembleBody conv nconv contents a of
                             Inl e \<Rightarrow> []
                           | Inr r \<Rightarrow> if highlightMd r = [] then [] else [r]) as))"
  by (induction as) (simp_all add: assembleHighlights_Nil assembleHighlights_Cons_Some)

lemma null_element_escapes:
  "None \<in> set els \<Longrightarrow> assembleHighlights conv nconv els contents = Inl TypeError"
proof (induction els)
  case Nil
  then show ?case by simp
next
  case (Cons x els)
  show ?case
  proof (cases x)
    case None
    then show ?thesis by (simp add: assembleHighlights_Cons_None)
  next
    case (Some a)
    with Cons have "assembleHighlights conv nconv els contents = Inl TypeError" by simp
    with Some show ?thesis by (simp add: assembleHighlights_Cons_Some)
  qed
qed

lemma contentObjsOf_missing:
  assumes "\<exists>u \<in> set us. contents u = None"
  shows "\<exists>e. contentObjsOf contents us = Inl e"
  using assms
proof (induction us)
  case Nil
  then show ?case by simp
next
  case (Cons u us)
  show ?case
  proof (cases "contents u")
    case None
    then show ?thesis by simp
  next
    case (Some c)
    with Cons.prems have "\<exists>u \<in> set us. contents u = None" by auto
    then obtain e where "contentObjsOf contents us = Inl e" using Cons.IH by blast
    with Some show ?thesis by simp
  qed
qed

lemma assembleBody_fails:
  assumes "\<not> truthy (annotationId a)
       \<or> (\<exists>u \<in> set (getContentUrisForAnnotation a). contents u = None)
       \<or> (\<exists>e. assembleBody conv nconv contents a = Inl e)"
  shows "\<exists>e. assembleBody conv nconv contents a = Inl e"
proof -
  consider (id) "\<not> truthy (annotationId a)"
    | (uri) "truthy (annotationId a)" "\<exists>u \<in> set (getContentUrisForAnnotation a). contents u = None"
    | (other) "\<exists>e. assembleBody conv nconv contents a = Inl e"
    using assms by blast
  then show ?thesis
  proof cases
    case id
    then show ?thesis by (simp add: assembleBody_def)
  next
    case uri
    from contentObjsOf_missing[OF uri(2)] obtain e
      where "contentObjsOf contents (getContentUrisForAnnotation a) = Inl e" by blast
    with uri(1) show ?thesis by (simp add: assembleBody_def Let_def)
  next
    case other
    then show ?thesis .
  qed
qed

lemma contentObjsOf_Cons:
  assumes "contentObjsOf contents (u # us) = Inr cs"
  shows "\<exists>c cs'. contents u = Some c \<and> cs = c # cs'"
  using assms by (auto split: option.splits sum.splits)

lemma assembleBody_source:
  assumes ok: "assembleBody conv nconv contents a = Inr r"
    and hs: "highlights a = Some (h # hs)"
  shows "\<exists>c. contents (h_uri h) = Some c \<and> out_source r = Some (getSourceInfo a c)
           \<and> sourceLink r = (if h_uri h = [] then None else Some (uriToUrl (Some (h_uri h))))"
proof -
  have uris: "getContentUrisForAnnotation a = h_uri h # map h_uri hs"
    by (simp add: getContentUrisForAnnotation_def hs)
  from ok obtain cs where cs: "contentObjsOf contents (h_uri h # map h_uri hs) = Inr cs"
    unfolding assembleBody_def Let_def uris by (auto split: if_splits sum.splits)
  from contentObjsOf_Cons[OF cs] obtain c cs' where c: "contents (h_uri h) = Some c"
    and cs': "cs = c # cs'" by blast
  from ok have "out_source r = Some (getSourceInfo a c)
      \<and> sourceLink r = (if h_uri h = [] then None else Some (uriToUrl (Some (h_uri h))))"
    unfolding assembleBody_def Let_def uris cs cs'
    by (auto split: if_splits sum.splits)
  with c show ?thesis by blast
qed

lemma getSourceInfo_known:
  assumes "i < length knownSources"
    and "startsWith (uriToUrl (uri a)) (url (knownSources ! i))"
    and "\<forall>j < i. \<not> startsWith (uriToUrl (uri a)) (url (knownSources ! j))"
  shows "getSourceInfo a c = knownSources ! i"
proof -
  have "find (\<lambda>s. startsWith (uriToUrl (uri a)) (url s)) knownSources = Some (knownSources ! i)"
    unfolding find_Some_iff using assms by blast
  then show ?thesis by (simp add: getSourceInfo_def Let_def)
qed

lemma getSourceInfo_unknown:
  assumes "\<forall>s \<in> set knownSources. \<not> startsWith (uriToUrl (uri a)) (url s)"
  shows "getSourceInfo a c =
     \<lparr>url = uriToUrl (uri a), title = headline c,
      author = (if truthy (authorName c) then authorName c else publication c),
      source_type = None\<rparr>"
proof -
  have "find (\<lambda>s. startsWith (uriToUrl (uri a)) (url s)) knownSources = None"
    unfolding find_None_iff using assms by blast
  then show ?thesis by (simp add: getSourceInfo_def Let_def js_or_def)
qed

lemma loop_index_ge: "index st \<le> index (loop wo ws st)"
proof (induction ws arbitrary: st)
  case Nil
  then show ?case by simp
next
  case (Cons p ws)
  have "index st \<le> index (body st p)" by (simp add: body_def Let_def)
  also have "\<dots> \<le> index (loop wo ws (body st p))" by (rule Cons.IH)
  finally show ?case by simp
qed

lemma loop_index_mono:
  assumes "a \<le> b"
  shows "index (loop (Num a) ws st) \<le> index (loop (Num b) ws st)"
proof (induction ws arbitrary: st)
  case Nil
  then show ?case by simp
next
  case (Cons p ws)
  show ?case
  proof (cases "int (offset st) < a")
    case True
    with assms have "int (offset st) < b" by linarith
    with True show ?thesis using Cons.IH[of "body st p"] by simp
  next
    case False
    then have "loop (Num a) (p # ws) st = st" by simp
    then show ?thesis by (simp only: loop_index_ge)
  qed
qed

lemma wordOffsetToIndex_mono:
  "a \<le> b \<Longrightarrow> wordOffsetToIndex ws (Num a) \<le> wordOffsetToIndex ws (Num b)"
  by (simp add: wordOffsetToIndex_def loop_index_mono)

section \<open>Links and the word counter\<close>




text \<open>
  The run that counts once ends at the first \<^verbatim>\<open>)\<close>, wherever it stands: in
  \<^verbatim>\<open>[(a)](x-y)\<close> the token with \<^verbatim>\<open>](\<close> contains one, the link state is closed on
  that token, and the rest of the address is counted as a second word.
\<close>

lemma paren_in_link_text:
  "split_SeparatorRegex ex_paren_link = [ascii ''[(a)](x'', ascii ''-'', ascii ''y)'']
   \<and> loop PosInfinity [ascii ''[(a)](x''] initial = \<lparr>offset = 1, index = 1, inLink = False\<rparr>
   \<and> loop PosInfinity (split_SeparatorRegex ex_paren_link) initial
       = \<lparr>offset = 2, index = 3, inLink = False\<rparr>"
  by code_simp

section \<open>Spans and blocks\<close>

text \<open>
  C2. The claim pairs span \<open>i\<close> with the converted text of fragment \<open>i\<close>, whatever the
  number of markup blocks of a fragment. The code flattens the blocks of all fragments
  into one list and pairs block \<open>i\<close> of that list with span \<open>i\<close>. For an annotation with
  one span whose fragment has two blocks, the second block meets no span: reading its
  offsets throws, and the annotation is dropped, for any conversion.
\<close>

theorem two_block_fragment_dropped:
  "assembleBody conv nconv ex_contents ex_two_blocks = Inl TypeError
   \<and> assembleHighlights conv nconv [Some ex_two_blocks] ex_contents = Inr []"
proof -
  have c: "ex_contents ex_talk = Some (ex_fragment [ascii ''one'', ascii ''two''])"
    by code_simp
  have t: "truthy (Some (ascii ''id4''))" by code_simp
  have b: "assembleBody conv nconv ex_contents ex_two_blocks = Inl TypeError"
    by (simp add: assembleBody_def Let_def ex_two_blocks_def ex_annotation_def
        getContentUrisForAnnotation_def c t ex_fragment_def)
  then show ?thesis by (simp add: assembleHighlights_Cons_Some assembleHighlights_Nil)
qed

theorem two_block_fragment_dropped_witness:
  "assembleBody (\<lambda>x. x) (\<lambda>x. x) ex_contents ex_two_blocks = Inl TypeError
   \<and> assembleHighlights (\<lambda>x. x) (\<lambda>x. x) [Some ex_two_blocks] ex_contents = Inr []"
  by (rule two_block_fragment_dropped)

section \<open>The citation\<close>

text \<open>
  C3, as the code has it. For an annotation that assembles and has a first span, the
  citation is resolved from the first resolved fragment and the annotation's own
  \<^verbatim>\<open>uri\<close> field (not the address of the first span): that field is made absolute, the
  first entry of the table of known sources whose address is a prefix of it is returned,
  and when no entry matches the citation is built from the fragment: the author is the
  fragment's author name or else its publication, the title is its headline, the address
  is the absolute one. The address of the first span gives the source link only.
\<close>

theorem citation_from_annotation_uri:
  assumes "assembleBody conv nconv contents a = Inr r"
    and "highlights a = Some (h # hs)"
  shows "\<exists>c. contents (h_uri h) = Some c
      \<and> out_source r = Some (getSourceInfo a c)
      \<and> (\<forall>i < length knownSources.
            startsWith (uriToUrl (uri a)) (url (knownSources ! i))
            \<and> (\<forall>j < i. \<not> startsWith (uriToUrl (uri a)) (url (knownSources ! j)))
            \<longrightarrow> getSourceInfo a c = knownSources ! i)
      \<and> ((\<forall>s \<in> set knownSources. \<not> startsWith (uriToUrl (uri a)) (url s))
            \<longrightarrow> getSourceInfo a c =
                 \<lparr>url = uriToUrl (uri a), title = headline c,
                  author = (if truthy (authorName c) then authorName c else publication c),
                  source_type = None\<rparr>)
      \<and> sourceLink r = (if h_uri h = [] then None else Some (uriToUrl (Some (h_uri h))))"
proof -
  from assembleBody_source[OF assms] obtain c where c: "contents (h_uri h) = Some c"
    and src: "out_source r = Some (getSourceInfo a c)"
    and link: "sourceLink r = (if h_uri h = [] then None else Some (uriToUrl (Some (h_uri h))))"
    by blast
  have known: "\<forall>i < length knownSources.
            startsWith (uriToUrl (uri a)) (url (knownSources ! i))
            \<and> (\<forall>j < i. \<not> startsWith (uriToUrl (uri a)) (url (knownSources ! j)))
            \<longrightarrow> getSourceInfo a c = knownSources ! i"
    using getSourceInfo_known[of _ a c] by blast
  have unknown: "(\<forall>s \<in> set knownSources. \<not> startsWith (uriToUrl (uri a)) (url s))
            \<longrightarrow> getSourceInfo a c =
                 \<lparr>url = uriToUrl (uri a), title = headline c,
                  author = (if truthy (authorName c) then authorName c else publication c),
                  source_type = None\<rparr>"
    using getSourceInfo_unknown[of a c] by blast
  from c src known unknown link show ?thesis by blast
qed

theorem citation_from_annotation_uri_witness:
  "out_source ex_valid_record =
     Some \<lparr>url = uriToUrl (Some ex_talk), title = Some (ascii ''Opening Message''),
           author = Some (ascii ''Russell M. Nelson''), source_type = None\<rparr>
   \<and> sourceLink ex_valid_record = Some (uriToUrl (Some ex_paragraph))
   \<and> out_source ex_bofm_record = Some (knownSources ! 0)
   \<and> sourceLink ex_bofm_record = Some (uriToUrl (Some ex_verse))"
proof -
  let ?h = "\<lparr>h_uri = ex_paragraph, startOffset = Some 1, endOffset = Some (- 1)\<rparr>"
  let ?v = "\<lparr>h_uri = ex_verse, startOffset = Some 1, endOffset = Some 2\<rparr>"
  have ok: "assembleBody (\<lambda>x. x) (\<lambda>x. x) ex_contents ex_valid = Inr ex_valid_record"
    by code_simp
  have hs: "highlights ex_valid = Some (?h # [])"
    by (simp add: ex_valid_def ex_annotation_def)
  have u: "uri ex_valid = Some ex_talk" by (simp add: ex_valid_def ex_annotation_def)
  have c: "ex_contents (h_uri ?h) = Some (ex_fragment [ascii ''Hear Him''])"
    by code_simp
  have none: "\<forall>s \<in> set knownSources. \<not> startsWith (uriToUrl (Some ex_talk)) (url s)"
    by code_simp
  have p: "ex_paragraph \<noteq> []" by code_simp
  have a: "truthy (authorName (ex_fragment [ascii ''Hear Him'']))" by code_simp
  from citation_from_annotation_uri[OF ok hs] c none u p a
  have talk: "out_source ex_valid_record =
     Some \<lparr>url = uriToUrl (Some ex_talk), title = Some (ascii ''Opening Message''),
           author = Some (ascii ''Russell M. Nelson''), source_type = None\<rparr>
   \<and> sourceLink ex_valid_record = Some (uriToUrl (Some ex_paragraph))"
    by (simp add: ex_fragment_def)
  have ok': "assembleBody (\<lambda>x. x) (\<lambda>x. x) ex_scripture_contents ex_bofm = Inr ex_bofm_record"
    by code_simp
  have hs': "highlights ex_bofm = Some (?v # [])"
    by (simp add: ex_bofm_def ex_annotation_def)
  have u': "uri ex_bofm = Some ex_chapter" by (simp add: ex_bofm_def ex_annotation_def)
  have first: "startsWith (uriToUrl (Some ex_chapter)) (url (knownSources ! 0))"
    by code_simp
  have len: "0 < length knownSources" by (simp add: knownSources_def)
  have v: "ex_verse \<noteq> []" by code_simp
  from citation_from_annotation_uri[OF ok' hs'] obtain c'
    where src: "out_source ex_bofm_record = Some (getSourceInfo ex_bofm c')"
      and known: "\<forall>i < length knownSources.
            startsWith (uriToUrl (uri ex_bofm)) (url (knownSources ! i))
            \<and> (\<forall>j < i. \<not> startsWith (uriToUrl (uri ex_bofm)) (url (knownSources ! j)))
            \<longrightarrow> getSourceInfo ex_bofm c' = knownSources ! i"
      and link: "sourceLink ex_bofm_record =
          (if h_uri ?v = [] then None else Some (uriToUrl (Some (h_uri ?v))))"
    by blast
  from known len first have "getSourceInfo ex_bofm c' = knownSources ! 0"
    unfolding u' by blast
  with src link v have "out_source ex_bofm_record = Some (knownSources ! 0)
      \<and> sourceLink ex_bofm_record = Some (uriToUrl (Some ex_verse))"
    by simp
  with talk show ?thesis by (simp only:)
qed

text \<open>
  The claim as it was stated fails where the annotation's field and the address of its
  first span differ: the citation carries the address of the talk, the annotation's
  field, and not that of the paragraph the first span points to.
\<close>

theorem citation_not_from_first_span:
  "assembleHighlights (\<lambda>x. x) (\<lambda>x. x) [Some ex_valid] ex_contents = Inr [ex_valid_record]
   \<and> out_source ex_valid_record =
       Some \<lparr>url = ascii ''https://www.churchofjesuschrist.org/study/general-conference/2020/04/11nelson'',
             title = Some (ascii ''Opening Message''),
             author = Some (ascii ''Russell M. Nelson''), source_type = None\<rparr>
   \<and> getContentUrisForAnnotation ex_valid = [ex_paragraph]
   \<and> uriToUrl (Some ex_paragraph) =
       ascii ''https://www.churchofjesuschrist.org/study/general-conference/2020/04/11nelson.p5''"
  by code_simp

section \<open>The round trip of the tokenizer\<close>

text \<open>
  C4. Splitting any string at the separator expression and concatenating the tokens,
  words and separators alike, in order, gives the string back.
\<close>

theorem split_roundtrip: "concat (split_SeparatorRegex s) = s"
  by (rule split_concat)

theorem split_roundtrip_witness:
  "split_SeparatorRegex (ascii ''a - b '') = [ascii ''a'', ascii '' - '', ascii ''b'', ascii '' '', []]
   \<and> concat (split_SeparatorRegex (ascii ''a - b '')) = ascii ''a - b ''"
proof (rule conjI)
  show "split_SeparatorRegex (ascii ''a - b '') =
      [ascii ''a'', ascii '' - '', ascii ''b'', ascii '' '', []]"
    by code_simp
  show "concat (split_SeparatorRegex (ascii ''a - b '')) = ascii ''a - b ''"
    by (rule split_roundtrip)
qed

section \<open>Resolved spans\<close>

text \<open>
  C5. For a span whose start offset is 1 or absent and whose end offset is \<open>-1\<close>, the
  slice resolved in a converted block is the whole block, so the extracted text, after
  the placeholders are stripped and the result is trimmed, is the stripped and trimmed
  text of the block.
\<close>

theorem whole_block_highlight:
  assumes "startOffset h = Some 1 \<or> startOffset h = None"
    and "endOffset h = Some (- 1)"
  shows "highlightPart part h = part \<and>
         trim (withoutPlaceholders (highlightPart part h)) = trim (withoutPlaceholders part)"
proof -
  from assms(1) have "startOffsetOf h = Num 0 \<or> startOffsetOf h = NaN"
    by (auto simp: startOffsetOf_def)
  then have s: "wordOffsetToIndex (split_SeparatorRegex part) (startOffsetOf h) = 0"
    by (auto simp: wordOffsetToIndex_zero wordOffsetToIndex_NaN)
  from assms(2) have "endOffsetOf h = PosInfinity"
    by (simp add: endOffsetOf_def)
  then have e: "wordOffsetToIndex (split_SeparatorRegex part) (endOffsetOf h) =
      length (split_SeparatorRegex part)"
    by (simp add: wordOffsetToIndex_PosInfinity)
  have "highlightPart part h = concat (split_SeparatorRegex part)"
    by (simp add: highlightPart_def Let_def s e slice_whole)
  then have "highlightPart part h = part" by (simp add: split_concat)
  then show ?thesis by simp
qed

theorem whole_block_highlight_witness:
  "highlightPart ex_footnote_block (ex_span None (Some (- 1))) = ex_footnote_block
   \<and> trim (withoutPlaceholders (highlightPart ex_footnote_block (ex_span (Some 1) (Some (- 1)))))
       = ascii ''The quick fox''"
proof -
  have a: "startOffset (ex_span None (Some (- 1))) = Some 1
      \<or> startOffset (ex_span None (Some (- 1))) = None"
    and b: "endOffset (ex_span None (Some (- 1))) = Some (- 1)"
    by (simp_all add: ex_span_def)
  have c: "startOffset (ex_span (Some 1) (Some (- 1))) = Some 1
      \<or> startOffset (ex_span (Some 1) (Some (- 1))) = None"
    and d: "endOffset (ex_span (Some 1) (Some (- 1))) = Some (- 1)"
    by (simp_all add: ex_span_def)
  have e: "trim (withoutPlaceholders ex_footnote_block) = ascii ''The quick fox''"
    by code_simp
  from whole_block_highlight[OF a b, of ex_footnote_block]
    whole_block_highlight[OF c d, of ex_footnote_block] e
  show ?thesis by simp
qed

text \<open>
  C6. When the index resolved for the end offset of a span is at or before the index
  resolved for its start offset, the slice of the token sequence is empty, and so is the
  text extracted for the block.
\<close>

theorem reversed_span_empty:
  assumes "wordOffsetToIndex (split_SeparatorRegex part) (endOffsetOf h)
           \<le> wordOffsetToIndex (split_SeparatorRegex part) (startOffsetOf h)"
  shows "slice (split_SeparatorRegex part)
           (wordOffsetToIndex (split_SeparatorRegex part) (startOffsetOf h))
           (wordOffsetToIndex (split_SeparatorRegex part) (endOffsetOf h)) = []
         \<and> trim (withoutPlaceholders (highlightPart part h)) = []"
proof -
  have sl: "slice (split_SeparatorRegex part)
           (wordOffsetToIndex (split_SeparatorRegex part) (startOffsetOf h))
           (wordOffsetToIndex (split_SeparatorRegex part) (endOffsetOf h)) = []"
    using assms by (rule slice_empty)
  then have "highlightPart part h = []"
    by (simp add: highlightPart_def Let_def)
  then show ?thesis using sl by (simp add: withoutPlaceholders_Nil trim_Nil)
qed

theorem reversed_span_empty_witness:
  "wordOffsetToIndex (split_SeparatorRegex ex_words) (endOffsetOf (ex_span (Some 3) (Some 1))) = 1
   \<and> wordOffsetToIndex (split_SeparatorRegex ex_words) (startOffsetOf (ex_span (Some 3) (Some 1))) = 3
   \<and> trim (withoutPlaceholders (highlightPart ex_words (ex_span (Some 3) (Some 1)))) = []"
proof -
  have e: "wordOffsetToIndex (split_SeparatorRegex ex_words)
      (endOffsetOf (ex_span (Some 3) (Some 1))) = 1"
    by code_simp
  have s: "wordOffsetToIndex (split_SeparatorRegex ex_words)
      (startOffsetOf (ex_span (Some 3) (Some 1))) = 3"
    by code_simp
  have le: "wordOffsetToIndex (split_SeparatorRegex ex_words)
      (endOffsetOf (ex_span (Some 3) (Some 1)))
      \<le> wordOffsetToIndex (split_SeparatorRegex ex_words)
      (startOffsetOf (ex_span (Some 3) (Some 1)))"
    unfolding e s by simp
  from reversed_span_empty[OF le] e s show ?thesis by simp
qed

text \<open>
  C7. The claim says that a start offset which, decremented, is at least the number
  of words of the block resolves to the end of the token sequence, so that nothing is
  extracted. The code does not do so in two cases. The loop leaves as soon as its
  counter reaches the offset, also while it is inside a link: in the block
  \<^verbatim>\<open>[a](x-y)\<close>, one link and so one word, the start offset 2 resolves to index 1 of 3,
  and the rest of the address is extracted. And the empty token that the split puts
  before a leading separator is counted as a word: in a block of three words after a
  space the start offset 4 resolves to index 5 of 7 and the third word is extracted, and
  in a block that begins with a link and has two words the start offset 3 extracts the
  second word.
\<close>

theorem start_past_last_word_extracts_text:
  "split_SeparatorRegex ex_bare_link = [ascii ''[a](x'', ascii ''-'', ascii ''y)'']
   \<and> startOffsetOf (ex_span (Some 2) (Some (- 1))) = Num 1
   \<and> wordOffsetToIndex (split_SeparatorRegex ex_bare_link)
        (startOffsetOf (ex_span (Some 2) (Some (- 1)))) = 1
   \<and> trim (withoutPlaceholders (highlightPart ex_bare_link (ex_span (Some 2) (Some (- 1)))))
       = ascii ''-y)''
   \<and> split_SeparatorRegex ex_leading_space =
       [[], ascii '' '', ascii ''a'', ascii '' '', ascii ''b'', ascii '' '', ascii ''c'']
   \<and> wordOffsetToIndex (split_SeparatorRegex ex_leading_space)
        (startOffsetOf (ex_span (Some 4) (Some (- 1)))) = 5
   \<and> trim (withoutPlaceholders (highlightPart ex_leading_space (ex_span (Some 4) (Some (- 1)))))
       = ascii ''c''
   \<and> split_SeparatorRegex ex_leading_link =
       [[], galaxy, ascii ''[a](u)'', galaxy @ ascii '' '', ascii ''b'']
   \<and> trim (withoutPlaceholders (highlightPart ex_leading_link (ex_span (Some 3) (Some (- 1)))))
       = ascii ''b''"
  by code_simp

theorem start_past_last_word_extracts_text_witness:
  "wordOffsetToIndex (split_SeparatorRegex ex_bare_link)
     (startOffsetOf (ex_span (Some 2) (Some (- 1))))
     < length (split_SeparatorRegex ex_bare_link)
   \<and> wordOffsetToIndex (split_SeparatorRegex ex_leading_space)
       (startOffsetOf (ex_span (Some 4) (Some (- 1))))
       < length (split_SeparatorRegex ex_leading_space)"
proof -
  note t = start_past_last_word_extracts_text
  from t have a: "split_SeparatorRegex ex_bare_link = [ascii ''[a](x'', ascii ''-'', ascii ''y)'']"
    by (rule conjunct1)
  from t have i: "wordOffsetToIndex (split_SeparatorRegex ex_bare_link)
        (startOffsetOf (ex_span (Some 2) (Some (- 1)))) = 1"
    by blast
  from t have c: "split_SeparatorRegex ex_leading_space =
       [[], ascii '' '', ascii ''a'', ascii '' '', ascii ''b'', ascii '' '', ascii ''c'']"
    by blast
  from t have j: "wordOffsetToIndex (split_SeparatorRegex ex_leading_space)
        (startOffsetOf (ex_span (Some 4) (Some (- 1)))) = 5"
    by blast
  show ?thesis unfolding i j by (simp add: a c)
qed

section \<open>Failures and empty highlights in a batch\<close>

text \<open>
  An annotation object whose assembly fails, because its identifier is missing, because
  the mapping has no fragment for the address of one of its spans, or because the body
  throws for any other reason, yields no record, and the batch gives what it gives
  without that annotation. A batch of annotation objects returns, in order, the record
  of every annotation that assembles with a highlighted text that is not empty.
\<close>

lemma failed_object_skipped:
  assumes "\<not> truthy (annotationId a)
       \<or> (\<exists>u \<in> set (getContentUrisForAnnotation a). contents u = None)
       \<or> (\<exists>e. assembleBody conv nconv contents a = Inl e)"
  shows "assembleOne conv nconv contents (Some a) = Inr None \<and>
         assembleHighlights conv nconv (xs @ Some a # ys) contents =
         assembleHighlights conv nconv (xs @ ys) contents"
proof -
  from assembleBody_fails[OF assms] obtain e
    where e: "assembleBody conv nconv contents a = Inl e" by blast
  then have "assembleOne conv nconv contents (Some a) = Inr None"
    by (simp add: assembleOne_Some)
  moreover have "assembleHighlights conv nconv (xs @ Some a # ys) contents =
         assembleHighlights conv nconv (xs @ ys) contents"
    by (rule assembleHighlights_skip) (simp add: e)
  ultimately show ?thesis by simp
qed

lemma failed_object_skipped_sample:
  "assembleHighlights (\<lambda>x. x) (\<lambda>x. x)
     [Some ex_no_id, Some ex_valid, Some ex_moved, Some ex_two_blocks] ex_contents
   = Inr [ex_valid_record]"
  by code_simp

text \<open>
  C8. The claim says that no exception leaves the batch. The handler of the
  \<^verbatim>\<open>catch\<close> block reads \<^verbatim>\<open>a.uri\<close>: for an element that is \<^verbatim>\<open>null\<close> or
  \<^verbatim>\<open>undefined\<close> the \<^verbatim>\<open>try\<close> block throws on \<^verbatim>\<open>a.annotationId\<close>, the handler throws
  again, and the TypeError leaves the call, so that the valid annotation before it is
  not returned either. This holds for any conversion and any mapping.
\<close>

theorem null_annotation_escapes:
  "assembleOne conv nconv contents None = Inl TypeError
   \<and> assembleHighlights conv nconv [Some ex_valid, None] contents = Inl TypeError"
  by (simp add: assembleOne_None assembleHighlights_Cons_Some assembleHighlights_Cons_None)

theorem null_annotation_escapes_witness:
  "assembleHighlights (\<lambda>x. x) (\<lambda>x. x) [Some ex_valid] ex_contents = Inr [ex_valid_record]
   \<and> assembleHighlights (\<lambda>x. x) (\<lambda>x. x) [Some ex_valid, None] ex_contents = Inl TypeError"
proof -
  have "assembleHighlights (\<lambda>x. x) (\<lambda>x. x) [Some ex_valid] ex_contents = Inr [ex_valid_record]"
    by code_simp
  with null_annotation_escapes[of "\<lambda>x. x" "\<lambda>x. x" ex_contents] show ?thesis by simp
qed



text \<open>
  C10. An annotation that has an identifier and whose list of spans is absent or empty
  assembles without an error into a record whose highlighted text is empty, and the
  batch returns no record for it: it gives what it gives without that annotation.
\<close>

theorem no_spans_no_record:
  assumes "highlights a = None \<or> highlights a = Some []"
    and "truthy (annotationId a)"
  shows "(\<exists>r. assembleBody conv nconv contents a = Inr r \<and> highlightMd r = [])
         \<and> assembleHighlights conv nconv (xs @ Some a # ys) contents =
           assembleHighlights conv nconv (xs @ ys) contents"
proof -
  from assms(1) have hs: "(case highlights a of None \<Rightarrow> [] | Some l \<Rightarrow> l) = []"
    and uris: "getContentUrisForAnnotation a = []"
    by (auto simp: getContentUrisForAnnotation_def)
  from assms(2) obtain r where r: "assembleBody conv nconv contents a = Inr r"
    and md: "highlightMd r = []"
    by (simp add: assembleBody_def Let_def hs uris)
  have "assembleHighlights conv nconv (xs @ Some a # ys) contents =
           assembleHighlights conv nconv (xs @ ys) contents"
    by (rule assembleHighlights_skip) (simp add: r md)
  with r md show ?thesis by blast
qed

theorem no_spans_no_record_witness:
  "assembleHighlights (\<lambda>x. x) (\<lambda>x. x) [Some ex_valid, Some ex_no_spans] ex_contents
     = Inr [ex_valid_record]
   \<and> (\<exists>r. assembleBody (\<lambda>x. x) (\<lambda>x. x) ex_contents ex_no_spans = Inr r \<and> highlightMd r = [])"
proof -
  have v: "assembleHighlights (\<lambda>x. x) (\<lambda>x. x) [Some ex_valid] ex_contents = Inr [ex_valid_record]"
    by code_simp
  have a: "highlights ex_no_spans = None \<or> highlights ex_no_spans = Some []"
    by (simp add: ex_no_spans_def ex_annotation_def)
  have b: "truthy (annotationId ex_no_spans)"
    by (simp add: ex_no_spans_def ex_annotation_def truthy_def ascii_def)
  from no_spans_no_record[OF a b, of "\<lambda>x. x" "\<lambda>x. x" ex_contents "[Some ex_valid]" "[]"] v
  show ?thesis by simp
qed

end
